theory Spec2Isabelle
  imports Main
begin

section \<open>Data model of the query service\<close>

text \<open>
  The embedding follows the second document of
  \<^verbatim>\<open>src/sql/workbench/contrib/dashboard/browser/dashboardEditor.ts\<close>
  (the query service: interfaces, class \<^verbatim>\<open>Query\<close>, class \<^verbatim>\<open>QueryService\<close>).
  A JavaScript \<^verbatim>\<open>number\<close> that holds an index, a row count or a time stamp in
  milliseconds is an \<open>int\<close>; a \<^verbatim>\<open>URI\<close> is represented by its \<^verbatim>\<open>toString()\<close>,
  the only thing the service ever reads of it.
\<close>

datatype ColumnType = XML | JSON | UNKNOWN

datatype QueryState = EXECUTING | NOT_EXECUTING

record IColumn =
  title :: string
  column_type :: ColumnType

record IResultMessage =
  message :: string
  isError :: "bool option"

record IResultSetSummary =
  resultIndex :: int
  batchIndex :: int
  rowCount :: int
  columns :: "IColumn list"
  completed :: bool

text \<open>
  \<^verbatim>\<open>IResultSet\<close>: the \<^verbatim>\<open>fetch\<close> closure is represented by the two indices it
  captures from the summary it was built from.
\<close>

record IResultSet =
  rs_columns :: "IColumn list"
  rs_id :: string
  rs_rowCount :: int
  rs_completed :: "bool option"
  rs_fetch_resultIndex :: int
  rs_fetch_batchIndex :: int

text \<open>The payload of a message event: \<^verbatim>\<open>IResultMessage | ReadonlyArray<IResultMessage>\<close>.\<close>

datatype messages_payload = One IResultMessage | Many "IResultMessage list"

text \<open>What the five emitters of a \<^verbatim>\<open>Query\<close> fire, in the order they fire it.\<close>

datatype notification =
    DidStateChange QueryState
  | Message messages_payload
  | ResultSetAvailable IResultSet
  | ResultSetUpdated IResultSet
  | QueryComplete

datatype error = Error string | TypeError

record Query =
  associatedFile :: string
  q_state :: QueryState
  q_messages :: "IResultMessage list"
  q_resultSets :: "IResultSet list"
  q_startTime :: "int option"
  q_endTime :: "int option"
  fired :: "notification list"

text \<open>\<^verbatim>\<open>new Query(queryService, associatedFile)\<close>: the field initialisers.\<close>

definition new_Query :: "string \<Rightarrow> Query" where
  "new_Query file =
     \<lparr>associatedFile = file, q_state = NOT_EXECUTING, q_messages = [], q_resultSets = [],
      q_startTime = None, q_endTime = None, fired = []\<rparr>"

subsection \<open>Getters\<close>

definition state :: "Query \<Rightarrow> QueryState" where
  "state q = q_state q"

definition messages :: "Query \<Rightarrow> IResultMessage list" where
  "messages q = q_messages q"

definition resultSets :: "Query \<Rightarrow> IResultSet list" where
  "resultSets q = q_resultSets q"

definition startTime :: "Query \<Rightarrow> int option" where
  "startTime q = q_startTime q"

definition endTime :: "Query \<Rightarrow> int option" where
  "endTime q = (if state q = EXECUTING then None else q_endTime q)"

subsection \<open>Rendering a number inside a template string\<close>

definition digit_char :: "nat \<Rightarrow> char" where
  "digit_char d = ''0123456789'' ! d"

fun digits :: "nat \<Rightarrow> string" where
  "digits n = (if n < 10 then [digit_char n] else digits (n div 10) @ [digit_char (n mod 10)])"

declare digits.simps [simp del]

definition numberToString :: "int \<Rightarrow> string" where
  "numberToString i = (if i < 0 then CHR ''-'' # digits (nat (- i)) else digits (nat i))"

text \<open>The inverse reading of a digit string, used only to show that rendering is injective.\<close>

definition digit_val :: "char \<Rightarrow> nat" where
  "digit_val c = of_char c - 48"

definition read_digits :: "string \<Rightarrow> nat" where
  "read_digits s = foldl (\<lambda>acc c. acc * 10 + digit_val c) 0 s"

subsection \<open>The event handlers of a Query\<close>

definition setState :: "QueryState \<Rightarrow> Query \<Rightarrow> Query" where
  "setState st q =
     (if st \<noteq> state q then q\<lparr>q_state := st, fired := fired q @ [DidStateChange st]\<rparr> else q)"

definition handleMessage :: "messages_payload \<Rightarrow> Query \<Rightarrow> Query" where
  "handleMessage e q =
     (case e of
        Many ms \<Rightarrow> q\<lparr>q_messages := q_messages q @ ms, fired := fired q @ [Message e]\<rparr>
      | One m \<Rightarrow> q\<lparr>q_messages := q_messages q @ [m], fired := fired q @ [Message e]\<rparr>)"

definition encodeId :: "int \<Rightarrow> int \<Rightarrow> string" where
  "encodeId resultId batchId = numberToString resultId @ ''_'' @ numberToString batchId"

definition handleResultSetAvailable :: "IResultSetSummary \<Rightarrow> Query \<Rightarrow> Query" where
  "handleResultSetAvailable e q =
     (let resultSet =
        \<lparr>rs_columns = columns e,
         rs_id = encodeId (resultIndex e) (batchIndex e),
         rs_rowCount = rowCount e,
         rs_completed = Some (completed e),
         rs_fetch_resultIndex = resultIndex e,
         rs_fetch_batchIndex = batchIndex e\<rparr>
      in q\<lparr>q_resultSets := q_resultSets q @ [resultSet],
            fired := fired q @ [ResultSetAvailable resultSet]\<rparr>)"

text \<open>
  Assigning to the object that \<^verbatim>\<open>Array.prototype.find\<close> returned changes the first
  element of the array that satisfies the predicate, and no other.
\<close>

fun update_first :: "('a \<Rightarrow> bool) \<Rightarrow> ('a \<Rightarrow> 'a) \<Rightarrow> 'a list \<Rightarrow> 'a list" where
  "update_first P f [] = []"
| "update_first P f (x # xs) = (if P x then f x # xs else x # update_first P f xs)"

text \<open>
  \<^verbatim>\<open>handleResultSetUpdated\<close>: when \<^verbatim>\<open>find\<close> returns \<^verbatim>\<open>undefined\<close>, the assignment
  \<^verbatim>\<open>resultSet.rowCount = e.rowCount\<close> throws a \<^verbatim>\<open>TypeError\<close> before anything is written
  or fired.
\<close>

definition handleResultSetUpdated :: "IResultSetSummary \<Rightarrow> Query \<Rightarrow> error + Query" where
  "handleResultSetUpdated e q =
     (let i = encodeId (resultIndex e) (batchIndex e) in
      case find (\<lambda>r. rs_id r = i) (q_resultSets q) of
        None \<Rightarrow> Inl TypeError
      | Some resultSet \<Rightarrow>
          (let mutated = resultSet\<lparr>rs_rowCount := rowCount e, rs_completed := Some (completed e)\<rparr>
           in Inr (q\<lparr>q_resultSets :=
                        update_first (\<lambda>r. rs_id r = i) (\<lambda>_. mutated) (q_resultSets q),
                      fired := fired q @ [ResultSetUpdated mutated]\<rparr>)))"

definition handleQueryComplete :: "Query \<Rightarrow> Query" where
  "handleQueryComplete q =
     (let q1 = setState NOT_EXECUTING q in q1\<lparr>fired := fired q1 @ [QueryComplete]\<rparr>)"

definition handleBatchStart :: "int \<Rightarrow> int \<Rightarrow> Query \<Rightarrow> Query" where
  "handleBatchStart index executionStart q =
     (if index = 0 then q\<lparr>q_startTime := Some executionStart\<rparr> else q)"

definition handleBatchEnd :: "int \<Rightarrow> Query \<Rightarrow> Query" where
  "handleBatchEnd executionEnd q = q\<lparr>q_endTime := Some executionEnd\<rparr>"

section \<open>The query service\<close>

subsection \<open>Providers, their emitters and disposables\<close>

datatype event_kind =
  EvMessage | EvResultSetAvailable | EvResultSetUpdated | EvBatchStart | EvBatchComplete
  | EvQueryComplete

text \<open>
  A provider event with its payload; the first argument is always the
  \<^verbatim>\<open>connectionId\<close> of \<^verbatim>\<open>IQueryProviderEvent\<close>. \<open>OnBatchStart\<close> carries
  \<^verbatim>\<open>executionStart\<close> and then \<^verbatim>\<open>index\<close>.
\<close>

datatype provider_event =
    OnMessage string messages_payload
  | OnResultSetAvailable string IResultSetSummary
  | OnResultSetUpdated string IResultSetSummary
  | OnBatchStart string int int
  | OnBatchComplete string int
  | OnQueryComplete string

fun kind_of :: "provider_event \<Rightarrow> event_kind" where
  "kind_of (OnMessage _ _) = EvMessage"
| "kind_of (OnResultSetAvailable _ _) = EvResultSetAvailable"
| "kind_of (OnResultSetUpdated _ _) = EvResultSetUpdated"
| "kind_of (OnBatchStart _ _ _) = EvBatchStart"
| "kind_of (OnBatchComplete _ _) = EvBatchComplete"
| "kind_of (OnQueryComplete _) = EvQueryComplete"

text \<open>
  Modelled from the spec: \<^verbatim>\<open>Event\<close>/\<^verbatim>\<open>Emitter\<close> of \<^verbatim>\<open>vs/base/common/event\<close> and
  \<^verbatim>\<open>combinedDisposable\<close>/\<^verbatim>\<open>toDisposable\<close> of \<^verbatim>\<open>vs/base/common/lifecycle\<close> are not
  among the source files. A provider object carries, for its six event streams, the
  listeners subscribed to them, each identified by the stream and a token handed out at
  subscription; a subscription is revoked by removing exactly that listener; an emission
  calls the listeners of the stream in subscription order, and an error raised by a
  listener reaches the caller of the dispatch; a combined disposable runs its parts in
  order.
\<close>

record IQueryProvider =
  provider_id :: string
  listeners :: "(event_kind \<times> nat) list"

datatype disposable_part = Unsubscribe nat event_kind nat | DeleteProvider string

type_synonym disposable = "disposable_part list"

record provider_stub =
  stub_disposable :: disposable
  stub_provider :: nat

datatype scalar = Str string | Num int | Bool bool

type_synonym execution_options = "(string \<times> scalar) list"

text \<open>The calls the service makes on a provider, logged with the provider they go to.\<close>

datatype provider_call =
    RunQuery string
  | CancelQuery string
  | SetExecutionOptions string execution_options

text \<open>
  The service together with the objects it refers to: \<open>queryProviders\<close> and \<open>queries\<close>
  are the two \<^verbatim>\<open>Map\<close>s of the class; \<open>getProviderIdFromUri\<close> is the connection
  management service; \<open>query_heap\<close> and \<open>provider_heap\<close> hold the \<^verbatim>\<open>Query\<close> and
  provider objects by reference, so that two registrations or two lookups can be told to
  concern the same object or two different ones.
\<close>

record QueryService =
  queryProviders :: "string \<rightharpoonup> provider_stub"
  queries :: "string \<rightharpoonup> nat"
  getProviderIdFromUri :: "string \<Rightarrow> string option"
  query_heap :: "nat \<Rightarrow> Query"
  next_query :: nat
  provider_heap :: "nat \<Rightarrow> IQueryProvider"
  next_listener :: nat
  provider_calls :: "(nat \<times> provider_call) list"

definition new_QueryService ::
  "(string \<Rightarrow> string option) \<Rightarrow> (nat \<Rightarrow> IQueryProvider) \<Rightarrow> QueryService" where
  "new_QueryService directory providers =
     \<lparr>queryProviders = Map.empty, queries = Map.empty, getProviderIdFromUri = directory,
      query_heap = (\<lambda>_. new_Query []), next_query = 0, provider_heap = providers,
      next_listener = 0, provider_calls = []\<rparr>"

definition modify_query :: "nat \<Rightarrow> (Query \<Rightarrow> Query) \<Rightarrow> QueryService \<Rightarrow> QueryService" where
  "modify_query r f s = s\<lparr>query_heap := (query_heap s)(r := f (query_heap s r))\<rparr>"

subsection \<open>createOrGetQuery and registerProvider\<close>

text \<open>
  The interface declares \<^verbatim>\<open>createOrGetQuery(associatedURI, forceNew?)\<close>; the method of
  the class takes \<^verbatim>\<open>associatedURI\<close> alone, so a second argument passed by a caller is
  never read.
\<close>

definition createOrGetQuery ::
  "string \<Rightarrow> bool option \<Rightarrow> QueryService \<Rightarrow> nat \<times> QueryService" where
  "createOrGetQuery associatedURI forceNew s =
     (case queries s associatedURI of
        Some existing \<Rightarrow> (existing, s)
      | None \<Rightarrow>
          (let query = next_query s in
           (query, s\<lparr>query_heap := (query_heap s)(query := new_Query associatedURI),
                     next_query := query + 1,
                     queries := (queries s)(associatedURI \<mapsto> query)\<rparr>)))"

definition subscriptions :: "nat \<Rightarrow> (event_kind \<times> nat) list" where
  "subscriptions t =
     [(EvMessage, t), (EvResultSetAvailable, t + 1), (EvResultSetUpdated, t + 2),
      (EvBatchStart, t + 3), (EvBatchComplete, t + 4), (EvQueryComplete, t + 5)]"

definition registerProvider :: "nat \<Rightarrow> QueryService \<Rightarrow> disposable \<times> QueryService" where
  "registerProvider provider s =
     (let subs = subscriptions (next_listener s);
          p = provider_heap s provider;
          disposable = map (\<lambda>(k, t). Unsubscribe provider k t) subs
                       @ [DeleteProvider (provider_id p)];
          providerStub = \<lparr>stub_disposable = disposable, stub_provider = provider\<rparr>
      in (disposable,
          s\<lparr>provider_heap := (provider_heap s)(provider := p\<lparr>listeners := listeners p @ subs\<rparr>),
            next_listener := next_listener s + 6,
            queryProviders := (queryProviders s)(provider_id p \<mapsto> providerStub)\<rparr>))"

text \<open>
  Modelled from the spec: invoking the capability returned by \<^verbatim>\<open>registerProvider\<close>
  (\<^verbatim>\<open>combinedDisposable\<close> and \<^verbatim>\<open>toDisposable\<close> are not among the source files)
  runs its parts in the order they were combined: each of the six unsubscriptions takes
  its own listener off the provider it was subscribed to, and the last part runs
  \<^verbatim>\<open>this.queryProviders.delete(provider.id)\<close>.
\<close>

fun dispose_part :: "disposable_part \<Rightarrow> QueryService \<Rightarrow> QueryService" where
  "dispose_part (Unsubscribe provider k t) s =
     s\<lparr>provider_heap := (provider_heap s)
          (provider := (provider_heap s provider)
             \<lparr>listeners := remove1 (k, t) (listeners (provider_heap s provider))\<rparr>)\<rparr>"
| "dispose_part (DeleteProvider i) s = s\<lparr>queryProviders := (queryProviders s)(i := None)\<rparr>"

definition dispose :: "disposable \<Rightarrow> QueryService \<Rightarrow> QueryService" where
  "dispose d s = fold dispose_part d s"

subsection \<open>Routing provider events to queries\<close>

definition findQuery :: "string \<Rightarrow> QueryService \<Rightarrow> error + nat" where
  "findQuery connectionId s =
     (case queries s connectionId of
        Some query \<Rightarrow> Inr query
      | None \<Rightarrow> Inl (Error (''Could not find query with connection '' @ connectionId)))"

definition onMessage :: "string \<Rightarrow> messages_payload \<Rightarrow> QueryService \<Rightarrow> error + QueryService" where
  "onMessage connectionId ms s =
     (case findQuery connectionId s of
        Inl err \<Rightarrow> Inl err
      | Inr query \<Rightarrow> Inr (modify_query query (handleMessage ms) s))"

definition onResultSetAvailable ::
  "string \<Rightarrow> IResultSetSummary \<Rightarrow> QueryService \<Rightarrow> error + QueryService" where
  "onResultSetAvailable connectionId e s =
     (case findQuery connectionId s of
        Inl err \<Rightarrow> Inl err
      | Inr query \<Rightarrow> Inr (modify_query query (handleResultSetAvailable e) s))"

definition onResultSetUpdated ::
  "string \<Rightarrow> IResultSetSummary \<Rightarrow> QueryService \<Rightarrow> error + QueryService" where
  "onResultSetUpdated connectionId e s =
     (case findQuery connectionId s of
        Inl err \<Rightarrow> Inl err
      | Inr query \<Rightarrow>
          (case handleResultSetUpdated e (query_heap s query) of
             Inl err \<Rightarrow> Inl err
           | Inr q' \<Rightarrow> Inr (modify_query query (\<lambda>_. q') s)))"

definition onBatchStart :: "string \<Rightarrow> int \<Rightarrow> int \<Rightarrow> QueryService \<Rightarrow> error + QueryService" where
  "onBatchStart connectionId executionStart index s =
     (case findQuery connectionId s of
        Inl err \<Rightarrow> Inl err
      | Inr query \<Rightarrow> Inr (modify_query query (handleBatchStart index executionStart) s))"

definition onBatchComplete :: "string \<Rightarrow> int \<Rightarrow> QueryService \<Rightarrow> error + QueryService" where
  "onBatchComplete connectionId executionEnd s =
     (case findQuery connectionId s of
        Inl err \<Rightarrow> Inl err
      | Inr query \<Rightarrow> Inr (modify_query query (handleBatchEnd executionEnd) s))"

definition onQueryComplete :: "string \<Rightarrow> QueryService \<Rightarrow> error + QueryService" where
  "onQueryComplete connectionId s =
     (case findQuery connectionId s of
        Inl err \<Rightarrow> Inl err
      | Inr query \<Rightarrow> Inr (modify_query query handleQueryComplete s))"

text \<open>
  The six listeners that \<^verbatim>\<open>registerProvider\<close> subscribes are \<^verbatim>\<open>e => this.onX(e)\<close>, one
  per stream: a listener called with an event hands it to the handler of its stream.
\<close>

fun listener :: "provider_event \<Rightarrow> QueryService \<Rightarrow> error + QueryService" where
  "listener (OnMessage c ms) s = onMessage c ms s"
| "listener (OnResultSetAvailable c e) s = onResultSetAvailable c e s"
| "listener (OnResultSetUpdated c e) s = onResultSetUpdated c e s"
| "listener (OnBatchStart c executionStart index) s = onBatchStart c executionStart index s"
| "listener (OnBatchComplete c executionEnd) s = onBatchComplete c executionEnd s"
| "listener (OnQueryComplete c) s = onQueryComplete c s"

text \<open>
  Modelled from the spec: the firing of an \<^verbatim>\<open>Emitter\<close> (not among the source files).
  The listeners are called in subscription order; an emission stops at the first
  listener that raises, and what the earlier listeners did stays done, so the result is
  the error, if any, with the state reached.
\<close>

fun call_listeners ::
  "(event_kind \<times> nat) list \<Rightarrow> provider_event \<Rightarrow> QueryService \<Rightarrow> error option \<times> QueryService"
  where
  "call_listeners [] ev s = (None, s)"
| "call_listeners (l # ls) ev s =
     (case listener ev s of Inl err \<Rightarrow> (Some err, s) | Inr s' \<Rightarrow> call_listeners ls ev s')"

definition subscribed :: "event_kind \<Rightarrow> nat \<Rightarrow> QueryService \<Rightarrow> (event_kind \<times> nat) list" where
  "subscribed k provider s = filter (\<lambda>l. fst l = k) (listeners (provider_heap s provider))"

text \<open>The provider object \<open>provider\<close> emits the event \<open>ev\<close> on the stream of its kind.\<close>

definition emit :: "nat \<Rightarrow> provider_event \<Rightarrow> QueryService \<Rightarrow> error option \<times> QueryService" where
  "emit provider ev s = call_listeners (subscribed (kind_of ev) provider s) ev s"

subsection \<open>The helpers a Query calls, and the operations of a Query\<close>

text \<open>
  \<^verbatim>\<open>withProvider\<close>: when the directory has no identity for the file, the lookup
  \<^verbatim>\<open>queryProviders.get(undefined)\<close> finds nothing, since every key of the map is a
  provider's \<^verbatim>\<open>id\<close> string, and the template string renders \<^verbatim>\<open>undefined\<close>.
\<close>

definition withProvider :: "string \<Rightarrow> QueryService \<Rightarrow> error + nat" where
  "withProvider file s =
     (let provider = getProviderIdFromUri s file;
          providerStub = (case provider of None \<Rightarrow> None | Some i \<Rightarrow> queryProviders s i)
      in case providerStub of
           None \<Rightarrow>
             Inl (Error (''Query provider could not be found: ''
                         @ (case provider of None \<Rightarrow> ''undefined'' | Some i \<Rightarrow> i)))
         | Some stub \<Rightarrow> Inr (stub_provider stub))"

text \<open>
  \<^verbatim>\<open>executeQuery\<close> and \<^verbatim>\<open>setExecutionOptions\<close> of the service: either
  \<^verbatim>\<open>withProvider\<close> throws, or the call is made on the provider found and its promise is
  returned; the result names the provider whose answer is awaited.
\<close>

definition executeQuery :: "string \<Rightarrow> QueryService \<Rightarrow> error + nat \<times> QueryService" where
  "executeQuery file s =
     (case withProvider file s of
        Inl err \<Rightarrow> Inl err
      | Inr provider \<Rightarrow>
          Inr (provider, s\<lparr>provider_calls := provider_calls s @ [(provider, RunQuery file)]\<rparr>))"

definition setExecutionOptions ::
  "string \<Rightarrow> execution_options \<Rightarrow> QueryService \<Rightarrow> error + nat \<times> QueryService" where
  "setExecutionOptions file options s =
     (case withProvider file s of
        Inl err \<Rightarrow> Inl err
      | Inr provider \<Rightarrow>
          Inr (provider,
               s\<lparr>provider_calls :=
                   provider_calls s @ [(provider, SetExecutionOptions file options)]\<rparr>))"

text \<open>
  \<^verbatim>\<open>Query.execute\<close> is an \<^verbatim>\<open>async\<close> function with one \<^verbatim>\<open>await\<close>. \<open>execute_sync\<close> is
  the part that runs when \<^verbatim>\<open>execute()\<close> is called, up to the \<^verbatim>\<open>await\<close>: it ends with a
  rejection (\<open>Inl\<close>) or with the provider whose \<^verbatim>\<open>runQuery\<close> promise is awaited (\<open>Inr\<close>).
  \<open>execute_resume\<close> is the part that runs when that promise settles, in whatever state
  the service then is; \<open>now\<close> is the value of \<^verbatim>\<open>Date.now()\<close>.
\<close>

definition execute_sync :: "nat \<Rightarrow> QueryService \<Rightarrow> (error + nat) \<times> QueryService" where
  "execute_sync this s =
     (if state (query_heap s this) = EXECUTING then (Inl (Error ''Query already executing''), s)
      else
        (let s1 = modify_query this
                    (\<lambda>q. q\<lparr>q_resultSets := [], q_messages := [],
                            q_startTime := None, q_endTime := None\<rparr>) s
         in case executeQuery (associatedFile (query_heap s1 this)) s1 of
              Inl err \<Rightarrow> (Inl err, s1)
            | Inr (provider, s2) \<Rightarrow> (Inr provider, s2)))"

definition execute_resume ::
  "nat \<Rightarrow> error + unit \<Rightarrow> int \<Rightarrow> QueryService \<Rightarrow> (error + unit) \<times> QueryService" where
  "execute_resume this reply now s =
     (case reply of
        Inl err \<Rightarrow> (Inl err, s)
      | Inr _ \<Rightarrow>
          (Inr (), modify_query this (\<lambda>q. setState EXECUTING (q\<lparr>q_startTime := Some now\<rparr>)) s))"

text \<open>\<^verbatim>\<open>Query.setExecutionOptions\<close>: an \<^verbatim>\<open>async\<close> function with an empty body.\<close>

definition Query_setExecutionOptions ::
  "nat \<Rightarrow> execution_options \<Rightarrow> QueryService \<Rightarrow> (error + unit) \<times> QueryService" where
  "Query_setExecutionOptions this options s = (Inr (), s)"

section \<open>Event sequences and concrete scenarios\<close>

text \<open>
  A sequence of events handed to the listeners one after the other. A dispatch that
  raises has changed nothing (every handler raises before its first write), so the next
  event meets the state the failed one met.
\<close>

fun dispatch_all :: "provider_event list \<Rightarrow> QueryService \<Rightarrow> QueryService" where
  "dispatch_all [] s = s"
| "dispatch_all (ev # evs) s =
     dispatch_all evs (case listener ev s of Inl _ \<Rightarrow> s | Inr s' \<Rightarrow> s')"

text \<open>
  The composite identities that the result-set-available events of a sequence announce
  to the query object \<open>r\<close>, given the map from connection ids to query objects.
\<close>

fun announced :: "(string \<rightharpoonup> nat) \<Rightarrow> nat \<Rightarrow> provider_event list \<Rightarrow> (int \<times> int) list" where
  "announced qs r [] = []"
| "announced qs r (OnResultSetAvailable c e # evs) =
     (if qs c = Some r then (resultIndex e, batchIndex e) # announced qs r evs
      else announced qs r evs)"
| "announced qs r (_ # evs) = announced qs r evs"

text \<open>Batch events as a \<^verbatim>\<open>Query\<close> receives them: start (index, time) and end (time).\<close>

datatype batch_event = BatchStart int int | BatchEnd int

fun handleBatchEvent :: "batch_event \<Rightarrow> Query \<Rightarrow> Query" where
  "handleBatchEvent (BatchStart index executionStart) q = handleBatchStart index executionStart q"
| "handleBatchEvent (BatchEnd executionEnd) q = handleBatchEnd executionEnd q"

fun first_batch_starts :: "batch_event list \<Rightarrow> int list" where
  "first_batch_starts [] = []"
| "first_batch_starts (BatchStart index t # evs) =
     (if index = 0 then t # first_batch_starts evs else first_batch_starts evs)"
| "first_batch_starts (BatchEnd _ # evs) = first_batch_starts evs"

fun batch_ends :: "batch_event list \<Rightarrow> int list" where
  "batch_ends [] = []"
| "batch_ends (BatchStart _ _ # evs) = batch_ends evs"
| "batch_ends (BatchEnd t # evs) = t # batch_ends evs"

text \<open>
  Concrete scenarios: two provider objects \<open>0\<close> and \<open>1\<close> (and any other) with the
  identity \<^verbatim>\<open>MSSQL\<close>, a directory that knows the document \<^verbatim>\<open>a.sql\<close> only, and the
  states reached from a new service by the calls named.
\<close>

definition mssql_providers :: "nat \<Rightarrow> IQueryProvider" where
  "mssql_providers = (\<lambda>_. \<lparr>provider_id = ''MSSQL'', listeners = []\<rparr>)"

definition mssql_directory :: "string \<Rightarrow> string option" where
  "mssql_directory = (\<lambda>file. if file = ''a.sql'' then Some ''MSSQL'' else None)"

definition hello :: IResultMessage where
  "hello = \<lparr>message = ''hello'', isError = None\<rparr>"

definition summary_5 :: IResultSetSummary where
  "summary_5 =
     \<lparr>resultIndex = 0, batchIndex = 0, rowCount = 5,
      columns = [\<lparr>title = ''name'', column_type = UNKNOWN\<rparr>], completed = False\<rparr>"

definition summary_10 :: IResultSetSummary where
  "summary_10 =
     \<lparr>resultIndex = 0, batchIndex = 0, rowCount = 10, columns = [], completed = True\<rparr>"

definition with_query :: QueryService where
  "with_query = snd (createOrGetQuery ''a.sql'' None (new_QueryService mssql_directory mssql_providers))"

definition with_message :: QueryService where
  "with_message = modify_query 0 (handleMessage (One hello)) with_query"

definition one_registration :: QueryService where
  "one_registration = snd (registerProvider 0 with_query)"

definition two_registrations :: QueryService where
  "two_registrations = snd (registerProvider 1 one_registration)"

definition awaiting_run :: QueryService where
  "awaiting_run = snd (execute_sync 0 one_registration)"

definition executing :: QueryService where
  "executing =
     modify_query 0 (handleMessage (One hello)) (snd (execute_resume 0 (Inr ()) 1000 awaiting_run))"

section \<open>Unfolding the model\<close>

lemmas scenario_defs =
  executing_def awaiting_run_def two_registrations_def one_registration_def with_message_def
  with_query_def mssql_directory_def mssql_providers_def hello_def new_QueryService_def
  new_Query_def

lemmas operation_defs =
  execute_resume_def execute_sync_def executeQuery_def withProvider_def registerProvider_def
  subscriptions_def createOrGetQuery_def modify_query_def handleMessage_def setState_def
  state_def messages_def resultSets_def startTime_def endTime_def Let_def

section \<open>Rendering of identities is injective\<close>

lemma digit_cases:
  "d < 10 \<Longrightarrow> d = 0 \<or> d = 1 \<or> d = 2 \<or> d = 3 \<or> d = 4 \<or> d = 5 \<or> d = 6 \<or> d = 7
     \<or> d = 8 \<or> d = (9::nat)"
  by arith

lemma digit_val_digit_char: "d < 10 \<Longrightarrow> digit_val (digit_char d) = d"
  by (drule digit_cases, elim disjE) (simp_all add: digit_val_def digit_char_def)

lemma digit_char_not_sep:
  "d < 10 \<Longrightarrow> digit_char d \<noteq> CHR ''_'' \<and> digit_char d \<noteq> CHR ''-''"
  by (drule digit_cases, elim disjE) (simp_all add: digit_char_def)

lemma read_digits_snoc: "read_digits (s @ [c]) = read_digits s * 10 + digit_val c"
  by (simp add: read_digits_def)

lemma read_digits_digits: "read_digits (digits n) = n"
proof (induction n rule: digits.induct)
  case (1 n)
  show ?case
  proof (cases "n < 10")
    case True
    then show ?thesis
      by (simp add: digits.simps [of n] read_digits_def digit_val_digit_char)
  next
    case False
    then have "read_digits (digits (n div 10)) = n div 10"
      using "1" by simp
    with False show ?thesis
      by (simp add: digits.simps [of n] read_digits_snoc digit_val_digit_char)
  qed
qed

lemma digits_inj: "digits n = digits m \<Longrightarrow> n = m"
  by (metis read_digits_digits)

lemma digits_chars: "c \<in> set (digits n) \<Longrightarrow> c \<noteq> CHR ''_'' \<and> c \<noteq> CHR ''-''"
proof (induction n rule: digits.induct)
  case (1 n)
  show ?case
  proof (cases "n < 10")
    case True
    with "1.prems" show ?thesis
      by (simp add: digits.simps [of n] digit_char_not_sep)
  next
    case False
    with "1" show ?thesis
      by (auto simp: digits.simps [of n] digit_char_not_sep)
  qed
qed

lemma digits_not_Nil: "digits n \<noteq> []"
  by (simp add: digits.simps [of n])

lemma hd_digits_not_minus: "hd (digits n) \<noteq> CHR ''-''"
  using digits_chars [of "hd (digits n)" n] digits_not_Nil [of n] by simp

lemma numberToString_inj: "numberToString i = numberToString j \<Longrightarrow> i = j"
proof -
  assume eq: "numberToString i = numberToString j"
  show ?thesis
  proof (cases "i < 0")
    case True
    note i = this
    show ?thesis
    proof (cases "j < 0")
      case True
      with i eq have "digits (nat (- i)) = digits (nat (- j))"
        by (simp add: numberToString_def)
      then have "nat (- i) = nat (- j)" by (rule digits_inj)
      with i True show ?thesis by simp
    next
      case False
      with i eq have "CHR ''-'' # digits (nat (- i)) = digits (nat j)"
        by (simp add: numberToString_def)
      then have "hd (digits (nat j)) = CHR ''-''" by (metis list.sel(1))
      then show ?thesis using hd_digits_not_minus by blast
    qed
  next
    case False
    note i = this
    show ?thesis
    proof (cases "j < 0")
      case True
      with i eq have "digits (nat i) = CHR ''-'' # digits (nat (- j))"
        by (simp add: numberToString_def)
      then have "hd (digits (nat i)) = CHR ''-''" by (metis list.sel(1))
      then show ?thesis using hd_digits_not_minus by blast
    next
      case False
      with i eq have "digits (nat i) = digits (nat j)"
        by (simp add: numberToString_def)
      then have "nat i = nat j" by (rule digits_inj)
      with i False show ?thesis by simp
    qed
  qed
qed

lemma numberToString_no_sep: "CHR ''_'' \<notin> set (numberToString i)"
  using digits_chars by (auto simp: numberToString_def)

lemma split_at_sep:
  "c \<notin> set xs \<Longrightarrow> c \<notin> set xs' \<Longrightarrow> xs @ c # ys = xs' @ c # ys' \<Longrightarrow> xs = xs' \<and> ys = ys'"
proof (induction xs arbitrary: xs')
  case Nil
  then show ?case by (cases xs') auto
next
  case (Cons x xs)
  then show ?case by (cases xs') auto
qed

lemma encodeId_inj: "encodeId r b = encodeId r' b' \<longleftrightarrow> r = r' \<and> b = b'"
proof
  assume "encodeId r b = encodeId r' b'"
  then have "numberToString r @ CHR ''_'' # numberToString b
           = numberToString r' @ CHR ''_'' # numberToString b'"
    by (simp add: encodeId_def)
  then have "numberToString r = numberToString r' \<and> numberToString b = numberToString b'"
    using split_at_sep numberToString_no_sep by metis
  then show "r = r' \<and> b = b'"
    using numberToString_inj by blast
next
  assume "r = r' \<and> b = b'"
  then show "encodeId r b = encodeId r' b'" by simp
qed

section \<open>Batch timing\<close>

lemma fold_batch_state: "q_state (fold handleBatchEvent evs q) = q_state q"
proof (induction evs arbitrary: q)
  case Nil
  show ?case by simp
next
  case (Cons ev evs)
  show ?case
    by (cases ev) (simp_all add: Cons.IH handleBatchStart_def handleBatchEnd_def)
qed

lemma fold_batch_startTime:
  "q_startTime (fold handleBatchEvent evs q) =
     (if first_batch_starts evs = [] then q_startTime q
      else Some (last (first_batch_starts evs)))"
proof (induction evs arbitrary: q)
  case Nil
  show ?case by simp
next
  case (Cons ev evs)
  show ?case
    by (cases ev) (simp_all add: Cons.IH handleBatchStart_def handleBatchEnd_def)
qed

lemma fold_batch_endTime:
  "q_endTime (fold handleBatchEvent evs q) =
     (if batch_ends evs = [] then q_endTime q else Some (last (batch_ends evs)))"
proof (induction evs arbitrary: q)
  case Nil
  show ?case by simp
next
  case (Cons ev evs)
  show ?case
    by (cases ev) (simp_all add: Cons.IH handleBatchStart_def handleBatchEnd_def)
qed

text \<open>
  Claim C8. A batch-start event whose index is not 0 leaves the query as it is, one with
  index 0 sets the start time, and every batch-end event overwrites the recorded end
  time. After any sequence of batch events the start time is that of the last batch-start
  event with index 0 (the previous start time if there is none), the recorded end time is
  that of the last batch-end event, and while the state is EXECUTING the \<open>endTime\<close>
  getter reads as unset whatever has been recorded.
\<close>

theorem batch_timing:
  "(index \<noteq> 0 \<longrightarrow> handleBatchStart index t q = q)
   \<and> handleBatchStart 0 t q = q\<lparr>q_startTime := Some t\<rparr>
   \<and> handleBatchEnd t q = q\<lparr>q_endTime := Some t\<rparr>
   \<and> startTime (fold handleBatchEvent evs q) =
       (if first_batch_starts evs = [] then startTime q
        else Some (last (first_batch_starts evs)))
   \<and> q_endTime (fold handleBatchEvent evs q) =
       (if batch_ends evs = [] then q_endTime q else Some (last (batch_ends evs)))
   \<and> (state q = EXECUTING \<longrightarrow> endTime (fold handleBatchEvent evs q) = None)"
proof -
  have "state q = EXECUTING \<longrightarrow> endTime (fold handleBatchEvent evs q) = None"
    by (simp add: endTime_def state_def fold_batch_state)
  then show ?thesis
    using fold_batch_startTime [of evs q] fold_batch_endTime [of evs q]
    by (simp add: handleBatchStart_def handleBatchEnd_def startTime_def)
qed

theorem batch_timing_witness:
  "(1::int) \<noteq> 0
   \<and> state (query_heap executing 0) = EXECUTING
   \<and> handleBatchStart 1 200 (query_heap executing 0) = query_heap executing 0
   \<and> startTime (fold handleBatchEvent
        [BatchStart 0 100, BatchStart 1 200, BatchEnd 50, BatchEnd 75] (query_heap executing 0))
      = Some 100
   \<and> q_endTime (fold handleBatchEvent
        [BatchStart 0 100, BatchStart 1 200, BatchEnd 50, BatchEnd 75] (query_heap executing 0))
      = Some 75
   \<and> endTime (fold handleBatchEvent
        [BatchStart 0 100, BatchStart 1 200, BatchEnd 50, BatchEnd 75] (query_heap executing 0))
      = None"
proof -
  have ex: "state (query_heap executing 0) = EXECUTING"
    by (simp add: executing_def awaiting_run_def one_registration_def with_query_def
        execute_resume_def execute_sync_def executeQuery_def withProvider_def
        registerProvider_def createOrGetQuery_def new_QueryService_def modify_query_def
        handleMessage_def setState_def state_def new_Query_def mssql_directory_def
        mssql_providers_def Let_def)
  show ?thesis
    using ex batch_timing [of 1 200 "query_heap executing 0"
        "[BatchStart 0 100, BatchStart 1 200, BatchEnd 50, BatchEnd 75]"]
    by simp
qed


section \<open>Query.execute\<close>

lemma withProvider_modify_query:
  "withProvider f (modify_query r g s) = withProvider f s"
  by (simp add: withProvider_def modify_query_def cong: option.case_cong)

text \<open>
  Claim C3. \<^verbatim>\<open>execute()\<close> on a query that is EXECUTING is rejected at once with the
  error \<^verbatim>\<open>Query already executing\<close>, and nothing at all has changed: the whole state
  of the service and of its queries (state, messages, result sets, times, notifications,
  provider calls) is the one before the call.
\<close>

theorem execute_while_executing_rejects:
  "state (query_heap s this) = EXECUTING \<Longrightarrow>
   execute_sync this s = (Inl (Error ''Query already executing''), s)"
  by (simp add: execute_sync_def)

theorem execute_while_executing_rejects_witness:
  "state (query_heap executing 0) = EXECUTING
   \<and> messages (query_heap executing 0) = [hello]
   \<and> execute_sync 0 executing = (Inl (Error ''Query already executing''), executing)"
proof -
  have ex: "state (query_heap executing 0) = EXECUTING"
    by (simp add: scenario_defs operation_defs)
  have ms: "messages (query_heap executing 0) = [hello]"
    by (simp add: scenario_defs operation_defs)
  show ?thesis
    using ex ms execute_while_executing_rejects [OF ex] by simp
qed

text \<open>
  Claim C2 as stated fails: when the synchronous portion of \<^verbatim>\<open>execute()\<close> is over and
  the \<^verbatim>\<open>runQuery\<close> promise of the provider is awaited, the state is still
  NOT_EXECUTING.
\<close>

theorem execute_sync_state_counterexample:
  "state (query_heap one_registration 0) = NOT_EXECUTING
   \<and> fst (execute_sync 0 one_registration) = Inr 0
   \<and> state (query_heap (snd (execute_sync 0 one_registration)) 0) \<noteq> EXECUTING"
  by (simp add: scenario_defs operation_defs)

text \<open>
  Claim C2, amended. For a query in state NOT_EXECUTING whose document resolves to a
  registered provider, the synchronous portion of \<^verbatim>\<open>execute()\<close> clears messages, result
  sets, start time and end time, asks that provider to run the query and leaves the state
  NOT_EXECUTING, with no notification. When the provider's promise resolves, in whatever
  state \<open>t\<close> the service then is, the continuation records the wall-clock start time and
  sets the state to EXECUTING (notifying the change unless the state was EXECUTING
  already), and leaves messages and result sets as they are by then; when the promise is
  rejected, the rejection is passed on and nothing changes.
\<close>

theorem execute_from_not_executing:
  assumes "state (query_heap s this) = NOT_EXECUTING"
    and "withProvider (associatedFile (query_heap s this)) s = Inr provider"
  shows "fst (execute_sync this s) = Inr provider
    \<and> provider_calls (snd (execute_sync this s)) =
        provider_calls s @ [(provider, RunQuery (associatedFile (query_heap s this)))]
    \<and> messages (query_heap (snd (execute_sync this s)) this) = []
    \<and> resultSets (query_heap (snd (execute_sync this s)) this) = []
    \<and> startTime (query_heap (snd (execute_sync this s)) this) = None
    \<and> q_endTime (query_heap (snd (execute_sync this s)) this) = None
    \<and> state (query_heap (snd (execute_sync this s)) this) = NOT_EXECUTING
    \<and> fired (query_heap (snd (execute_sync this s)) this) = fired (query_heap s this)
    \<and> state (query_heap (snd (execute_resume this (Inr ()) now t)) this) = EXECUTING
    \<and> startTime (query_heap (snd (execute_resume this (Inr ()) now t)) this) = Some now
    \<and> messages (query_heap (snd (execute_resume this (Inr ()) now t)) this)
        = messages (query_heap t this)
    \<and> resultSets (query_heap (snd (execute_resume this (Inr ()) now t)) this)
        = resultSets (query_heap t this)
    \<and> fired (query_heap (snd (execute_resume this (Inr ()) now t)) this)
        = (if state (query_heap t this) = EXECUTING then fired (query_heap t this)
           else fired (query_heap t this) @ [DidStateChange EXECUTING])
    \<and> execute_resume this (Inl err) now t = (Inl err, t)"
proof -
  have wp: "withProvider (associatedFile (query_heap s this))
              (modify_query this
                 (\<lambda>q. q\<lparr>q_resultSets := [], q_messages := [], q_startTime := None,
                         q_endTime := None\<rparr>) s) = Inr provider"
    using assms(2) by (simp add: withProvider_modify_query)
  have sync: "execute_sync this s =
      (Inr provider,
       (modify_query this
          (\<lambda>q. q\<lparr>q_resultSets := [], q_messages := [], q_startTime := None,
                  q_endTime := None\<rparr>) s)
        \<lparr>provider_calls := provider_calls s
            @ [(provider, RunQuery (associatedFile (query_heap s this)))]\<rparr>)"
    using assms(1) wp
    by (simp add: execute_sync_def executeQuery_def Let_def)
       (simp add: modify_query_def)
  have resume: "snd (execute_resume this (Inr ()) now t) =
      modify_query this (\<lambda>q. setState EXECUTING (q\<lparr>q_startTime := Some now\<rparr>)) t"
    by (simp add: execute_resume_def)
  show ?thesis
    using assms(1)
    by (simp add: sync resume)
       (simp add: modify_query_def setState_def state_def messages_def resultSets_def
          startTime_def execute_resume_def)
qed

theorem execute_from_not_executing_witness:
  "state (query_heap one_registration 0) = NOT_EXECUTING
   \<and> withProvider (associatedFile (query_heap one_registration 0)) one_registration = Inr 0
   \<and> fst (execute_sync 0 one_registration) = Inr 0
   \<and> provider_calls awaiting_run = [(0, RunQuery ''a.sql'')]
   \<and> state (query_heap awaiting_run 0) = NOT_EXECUTING
   \<and> state (query_heap (snd (execute_resume 0 (Inr ()) 1000 awaiting_run)) 0) = EXECUTING
   \<and> startTime (query_heap (snd (execute_resume 0 (Inr ()) 1000 awaiting_run)) 0) = Some 1000
   \<and> fired (query_heap (snd (execute_resume 0 (Inr ()) 1000 awaiting_run)) 0)
       = [DidStateChange EXECUTING]"
proof -
  have st: "state (query_heap one_registration 0) = NOT_EXECUTING"
    by (simp add: scenario_defs operation_defs)
  have wp: "withProvider (associatedFile (query_heap one_registration 0)) one_registration
            = Inr 0"
    by (simp add: scenario_defs operation_defs)
  have calls: "provider_calls one_registration = []"
    and doc: "associatedFile (query_heap one_registration 0) = ''a.sql''"
    and fired0: "fired (query_heap one_registration 0) = []"
    by (simp_all add: scenario_defs operation_defs)
  show ?thesis
    using st wp execute_from_not_executing [OF st wp, of 1000 awaiting_run]
    by (simp add: calls doc fired0 awaiting_run_def [symmetric])
qed

text \<open>
  Claim C4 as stated fails: the rejection for a missing provider comes after the
  clearing, so the messages of the query are gone.
\<close>

theorem execute_without_provider_counterexample:
  "state (query_heap with_message 0) = NOT_EXECUTING
   \<and> messages (query_heap with_message 0) = [hello]
   \<and> fst (execute_sync 0 with_message) = Inl (Error ''Query provider could not be found: MSSQL'')
   \<and> messages (query_heap (snd (execute_sync 0 with_message)) 0) = []
   \<and> messages (query_heap (snd (execute_sync 0 with_message)) 0)
       \<noteq> messages (query_heap with_message 0)"
  by (simp add: scenario_defs operation_defs)

text \<open>
  Claim C4, amended. For a query in state NOT_EXECUTING whose document has no provider
  identity in the directory, or an identity under which no provider is registered,
  \<^verbatim>\<open>execute()\<close> is rejected with the error \<^verbatim>\<open>Query provider could not be found\<close>; no
  provider is called, the state stays NOT_EXECUTING and nothing is notified; messages,
  result sets, start time and end time have been cleared by then, and nothing else of the
  service has changed.
\<close>

theorem execute_without_provider:
  assumes "state (query_heap s this) = NOT_EXECUTING"
    and "(case getProviderIdFromUri s (associatedFile (query_heap s this)) of
            None \<Rightarrow> None | Some i \<Rightarrow> queryProviders s i) = None"
  shows "fst (execute_sync this s) =
           Inl (Error (''Query provider could not be found: ''
                       @ (case getProviderIdFromUri s (associatedFile (query_heap s this)) of
                            None \<Rightarrow> ''undefined'' | Some i \<Rightarrow> i)))
    \<and> snd (execute_sync this s) =
        modify_query this
          (\<lambda>q. q\<lparr>q_resultSets := [], q_messages := [], q_startTime := None,
                  q_endTime := None\<rparr>) s
    \<and> state (query_heap (snd (execute_sync this s)) this) = NOT_EXECUTING
    \<and> fired (query_heap (snd (execute_sync this s)) this) = fired (query_heap s this)
    \<and> provider_calls (snd (execute_sync this s)) = provider_calls s
    \<and> messages (query_heap (snd (execute_sync this s)) this) = []
    \<and> resultSets (query_heap (snd (execute_sync this s)) this) = []
    \<and> startTime (query_heap (snd (execute_sync this s)) this) = None
    \<and> endTime (query_heap (snd (execute_sync this s)) this) = None"
proof -
  let ?clear = "\<lambda>q. q\<lparr>q_resultSets := [], q_messages := [], q_startTime := None,
                        q_endTime := None\<rparr>"
  let ?file = "associatedFile (query_heap s this)"
  have wp: "withProvider ?file (modify_query this ?clear s) =
      Inl (Error (''Query provider could not be found: ''
                  @ (case getProviderIdFromUri s ?file of None \<Rightarrow> ''undefined'' | Some i \<Rightarrow> i)))"
    using assms(2) by (simp add: withProvider_modify_query) (simp add: withProvider_def)
  have sync: "execute_sync this s =
      (Inl (Error (''Query provider could not be found: ''
                  @ (case getProviderIdFromUri s ?file of None \<Rightarrow> ''undefined'' | Some i \<Rightarrow> i))),
       modify_query this ?clear s)"
    using assms(1) wp
    by (simp add: execute_sync_def executeQuery_def Let_def)
       (simp add: modify_query_def)
  show ?thesis
    using assms(1)
    by (simp add: sync)
       (simp add: modify_query_def state_def messages_def resultSets_def startTime_def
          endTime_def)
qed

theorem execute_without_provider_witness:
  "state (query_heap with_message 0) = NOT_EXECUTING
   \<and> (case getProviderIdFromUri with_message (associatedFile (query_heap with_message 0)) of
         None \<Rightarrow> None | Some i \<Rightarrow> queryProviders with_message i) = None
   \<and> fst (execute_sync 0 with_message) = Inl (Error ''Query provider could not be found: MSSQL'')
   \<and> state (query_heap (snd (execute_sync 0 with_message)) 0) = NOT_EXECUTING
   \<and> provider_calls (snd (execute_sync 0 with_message)) = []
   \<and> messages (query_heap (snd (execute_sync 0 with_message)) 0) = []"
proof -
  have st: "state (query_heap with_message 0) = NOT_EXECUTING"
    by (simp add: scenario_defs operation_defs)
  have np: "(case getProviderIdFromUri with_message (associatedFile (query_heap with_message 0))
             of None \<Rightarrow> None | Some i \<Rightarrow> queryProviders with_message i) = None"
    by (simp add: scenario_defs operation_defs)
  have dir: "getProviderIdFromUri with_message (associatedFile (query_heap with_message 0))
             = Some ''MSSQL''"
    and calls: "provider_calls with_message = []"
    by (simp_all add: scenario_defs operation_defs)
  show ?thesis
    using st np execute_without_provider [OF st np]
    by (simp add: dir calls modify_query_def state_def messages_def)
qed


section \<open>Result sets\<close>

lemma length_update_first: "length (update_first P f xs) = length xs"
  by (induction xs) simp_all

lemma map_update_first:
  "(\<And>x. P x \<Longrightarrow> g (f x) = g x) \<Longrightarrow> map g (update_first P f xs) = map g xs"
  by (induction xs) simp_all

lemma find_Some_holds: "find P xs = Some x \<Longrightarrow> P x"
  by (induction xs) (auto split: if_splits)

lemma update_first_list_update:
  "find P xs = Some x \<Longrightarrow>
   \<exists>i<length xs. xs ! i = x \<and> (\<forall>j<i. \<not> P (xs ! j)) \<and> update_first P f xs = xs[i := f x]"
proof (induction xs)
  case Nil
  then show ?case by simp
next
  case (Cons a xs)
  show ?case
  proof (cases "P a")
    case True
    with Cons.prems have "a = x" by simp
    with True show ?thesis by (intro exI [of _ 0]) simp
  next
    case False
    with Cons.prems have "find P xs = Some x" by simp
    then obtain i where i: "i < length xs" "xs ! i = x" "\<forall>j<i. \<not> P (xs ! j)"
      "update_first P f xs = xs[i := f x]"
      using Cons.IH by blast
    have "\<forall>j<Suc i. \<not> P ((a # xs) ! j)"
    proof (intro allI impI)
      fix j assume "j < Suc i"
      then show "\<not> P ((a # xs) ! j)"
        using False i(3) by (cases j) simp_all
    qed
    with False i show ?thesis
      by (intro exI [of _ "Suc i"]) simp
  qed
qed

lemma update_first_append:
  "find P xs = None \<Longrightarrow> update_first P f (xs @ ys) = xs @ update_first P f ys"
  by (induction xs) (auto split: if_splits)

lemma find_append_None:
  "find P xs = None \<Longrightarrow> find P (xs @ ys) = find P ys"
  by (induction xs) (auto split: if_splits)

lemma encodeId_0_0: "encodeId 0 0 = ''0_0''"
  by (simp add: encodeId_def numberToString_def digits.simps digit_char_def)

text \<open>
  Claim C7. A result-set-updated event whose identity matches no entry of the result
  sets raises an error (the \<^verbatim>\<open>TypeError\<close> of writing to \<^verbatim>\<open>undefined\<close>) in the
  handler, in the dispatch of the service and in the emission of the provider, and the
  state is the one before. When the identity matches, the first entry \<open>x\<close> with that
  identity, at its index \<open>i\<close>, takes the row count and the completion flag of the event,
  the list keeps its length and its other entries, and the subscribers are notified with
  the mutated entry. A result-set-available event for an identity not yet present,
  followed by a result-set-updated event of the same identity, leaves one new entry,
  with the columns of the first event and the row count and completion flag of the
  second.
\<close>

theorem handleResultSetUpdated_unknown_or_in_place:
  "(find (\<lambda>r. rs_id r = encodeId (resultIndex e) (batchIndex e)) (resultSets q) = None \<longrightarrow>
      handleResultSetUpdated e q = Inl TypeError
      \<and> (queries s c = Some this \<and> query_heap s this = q \<longrightarrow>
           listener (OnResultSetUpdated c e) s = Inl TypeError
           \<and> (subscribed EvResultSetUpdated provider s \<noteq> [] \<longrightarrow>
                emit provider (OnResultSetUpdated c e) s = (Some TypeError, s))))
   \<and> (find (\<lambda>r. rs_id r = encodeId (resultIndex e) (batchIndex e)) (resultSets q) = Some x \<longrightarrow>
        (\<exists>i<length (resultSets q).
           resultSets q ! i = x
           \<and> (\<forall>j<i. rs_id (resultSets q ! j) \<noteq> encodeId (resultIndex e) (batchIndex e))
           \<and> handleResultSetUpdated e q =
               Inr (q\<lparr>q_resultSets :=
                        (resultSets q)
                          [i := x\<lparr>rs_rowCount := rowCount e, rs_completed := Some (completed e)\<rparr>],
                      fired := fired q @
                        [ResultSetUpdated
                           (x\<lparr>rs_rowCount := rowCount e, rs_completed := Some (completed e)\<rparr>)]\<rparr>)))
   \<and> (find (\<lambda>r. rs_id r = encodeId (resultIndex a) (batchIndex a)) (resultSets q) = None
        \<and> resultIndex e = resultIndex a \<and> batchIndex e = batchIndex a \<longrightarrow>
        handleResultSetUpdated e (handleResultSetAvailable a q) =
          Inr (q\<lparr>q_resultSets := resultSets q @
                   [\<lparr>rs_columns = columns a,
                     rs_id = encodeId (resultIndex a) (batchIndex a),
                     rs_rowCount = rowCount e,
                     rs_completed = Some (completed e),
                     rs_fetch_resultIndex = resultIndex a,
                     rs_fetch_batchIndex = batchIndex a\<rparr>],
                 fired := fired q @
                   [ResultSetAvailable
                      \<lparr>rs_columns = columns a,
                       rs_id = encodeId (resultIndex a) (batchIndex a),
                       rs_rowCount = rowCount a,
                       rs_completed = Some (completed a),
                       rs_fetch_resultIndex = resultIndex a,
                       rs_fetch_batchIndex = batchIndex a\<rparr>,
                    ResultSetUpdated
                      \<lparr>rs_columns = columns a,
                       rs_id = encodeId (resultIndex a) (batchIndex a),
                       rs_rowCount = rowCount e,
                       rs_completed = Some (completed e),
                       rs_fetch_resultIndex = resultIndex a,
                       rs_fetch_batchIndex = batchIndex a\<rparr>]\<rparr>))"
  (is "?unknown \<and> ?known \<and> ?fresh")
proof (intro conjI)
  let ?i = "encodeId (resultIndex e) (batchIndex e)"
  show ?unknown
  proof (intro impI conjI)
    assume none: "find (\<lambda>r. rs_id r = ?i) (resultSets q) = None"
    then show upd: "handleResultSetUpdated e q = Inl TypeError"
      by (simp add: handleResultSetUpdated_def resultSets_def)
    assume "queries s c = Some this \<and> query_heap s this = q"
    with upd show lis: "listener (OnResultSetUpdated c e) s = Inl TypeError"
      by (simp add: onResultSetUpdated_def findQuery_def)
    assume "subscribed EvResultSetUpdated provider s \<noteq> []"
    then obtain l ls where "subscribed EvResultSetUpdated provider s = l # ls"
      by (cases "subscribed EvResultSetUpdated provider s") simp_all
    with lis show "emit provider (OnResultSetUpdated c e) s = (Some TypeError, s)"
      by (simp add: emit_def)
  qed
  show ?known
  proof
    assume some: "find (\<lambda>r. rs_id r = ?i) (resultSets q) = Some x"
    then have some': "find (\<lambda>r. rs_id r = ?i) (q_resultSets q) = Some x"
      by (simp add: resultSets_def)
    from update_first_list_update [OF some',
        of "\<lambda>_. x\<lparr>rs_rowCount := rowCount e, rs_completed := Some (completed e)\<rparr>"]
    obtain i where i: "i < length (q_resultSets q)" "q_resultSets q ! i = x"
      "\<forall>j<i. rs_id (q_resultSets q ! j) \<noteq> ?i"
      "update_first (\<lambda>r. rs_id r = ?i)
         (\<lambda>_. x\<lparr>rs_rowCount := rowCount e, rs_completed := Some (completed e)\<rparr>)
         (q_resultSets q)
       = (q_resultSets q)[i := x\<lparr>rs_rowCount := rowCount e, rs_completed := Some (completed e)\<rparr>]"
      by blast
    have "handleResultSetUpdated e q =
        Inr (q\<lparr>q_resultSets :=
                 (q_resultSets q)
                   [i := x\<lparr>rs_rowCount := rowCount e, rs_completed := Some (completed e)\<rparr>],
               fired := fired q @
                 [ResultSetUpdated
                    (x\<lparr>rs_rowCount := rowCount e, rs_completed := Some (completed e)\<rparr>)]\<rparr>)"
      using some' i(4) by (simp add: handleResultSetUpdated_def Let_def)
    with i(1-3) show "\<exists>i<length (resultSets q).
           resultSets q ! i = x
           \<and> (\<forall>j<i. rs_id (resultSets q ! j) \<noteq> ?i)
           \<and> handleResultSetUpdated e q =
               Inr (q\<lparr>q_resultSets :=
                        (resultSets q)
                          [i := x\<lparr>rs_rowCount := rowCount e, rs_completed := Some (completed e)\<rparr>],
                      fired := fired q @
                        [ResultSetUpdated
                           (x\<lparr>rs_rowCount := rowCount e, rs_completed := Some (completed e)\<rparr>)]\<rparr>)"
      unfolding resultSets_def by blast
  qed
  show ?fresh
  proof
    let ?a = "encodeId (resultIndex a) (batchIndex a)"
    assume h: "find (\<lambda>r. rs_id r = ?a) (resultSets q) = None
        \<and> resultIndex e = resultIndex a \<and> batchIndex e = batchIndex a"
    then have none: "find (\<lambda>r. rs_id r = ?a) (q_resultSets q) = None"
      and same: "resultIndex e = resultIndex a" "batchIndex e = batchIndex a"
      by (simp_all add: resultSets_def)
    show "handleResultSetUpdated e (handleResultSetAvailable a q) =
          Inr (q\<lparr>q_resultSets := resultSets q @
                   [\<lparr>rs_columns = columns a,
                     rs_id = encodeId (resultIndex a) (batchIndex a),
                     rs_rowCount = rowCount e,
                     rs_completed = Some (completed e),
                     rs_fetch_resultIndex = resultIndex a,
                     rs_fetch_batchIndex = batchIndex a\<rparr>],
                 fired := fired q @
                   [ResultSetAvailable
                      \<lparr>rs_columns = columns a,
                       rs_id = encodeId (resultIndex a) (batchIndex a),
                       rs_rowCount = rowCount a,
                       rs_completed = Some (completed a),
                       rs_fetch_resultIndex = resultIndex a,
                       rs_fetch_batchIndex = batchIndex a\<rparr>,
                    ResultSetUpdated
                      \<lparr>rs_columns = columns a,
                       rs_id = encodeId (resultIndex a) (batchIndex a),
                       rs_rowCount = rowCount e,
                       rs_completed = Some (completed e),
                       rs_fetch_resultIndex = resultIndex a,
                       rs_fetch_batchIndex = batchIndex a\<rparr>]\<rparr>)"
      by (simp add: handleResultSetUpdated_def handleResultSetAvailable_def resultSets_def
          same find_append_None [OF none] update_first_append [OF none] Let_def)
  qed
qed


theorem handleResultSetUpdated_unknown_or_in_place_witness:
  "find (\<lambda>r. rs_id r = encodeId (resultIndex summary_10) (batchIndex summary_10))
      (resultSets (new_Query ''a.sql'')) = None
   \<and> queries one_registration ''a.sql'' = Some 0
   \<and> query_heap one_registration 0 = new_Query ''a.sql''
   \<and> subscribed EvResultSetUpdated 0 one_registration \<noteq> []
   \<and> handleResultSetUpdated summary_10 (new_Query ''a.sql'') = Inl TypeError
   \<and> listener (OnResultSetUpdated ''a.sql'' summary_10) one_registration = Inl TypeError
   \<and> emit 0 (OnResultSetUpdated ''a.sql'' summary_10) one_registration
       = (Some TypeError, one_registration)
   \<and> find (\<lambda>r. rs_id r = encodeId (resultIndex summary_10) (batchIndex summary_10))
        (resultSets (handleResultSetAvailable summary_5 (new_Query ''a.sql'')))
       = Some \<lparr>rs_columns = [\<lparr>title = ''name'', column_type = UNKNOWN\<rparr>], rs_id = ''0_0'',
                rs_rowCount = 5, rs_completed = Some False,
                rs_fetch_resultIndex = 0, rs_fetch_batchIndex = 0\<rparr>
   \<and> resultIndex summary_10 = resultIndex summary_5
   \<and> batchIndex summary_10 = batchIndex summary_5
   \<and> handleResultSetUpdated summary_10 (handleResultSetAvailable summary_5 (new_Query ''a.sql''))
       = Inr ((new_Query ''a.sql'')
           \<lparr>q_resultSets :=
              [\<lparr>rs_columns = [\<lparr>title = ''name'', column_type = UNKNOWN\<rparr>], rs_id = ''0_0'',
                rs_rowCount = 10, rs_completed = Some True,
                rs_fetch_resultIndex = 0, rs_fetch_batchIndex = 0\<rparr>],
            fired :=
              [ResultSetAvailable
                 \<lparr>rs_columns = [\<lparr>title = ''name'', column_type = UNKNOWN\<rparr>], rs_id = ''0_0'',
                  rs_rowCount = 5, rs_completed = Some False,
                  rs_fetch_resultIndex = 0, rs_fetch_batchIndex = 0\<rparr>,
               ResultSetUpdated
                 \<lparr>rs_columns = [\<lparr>title = ''name'', column_type = UNKNOWN\<rparr>], rs_id = ''0_0'',
                  rs_rowCount = 10, rs_completed = Some True,
                  rs_fetch_resultIndex = 0, rs_fetch_batchIndex = 0\<rparr>]\<rparr>)"
proof -
  let ?x = "\<lparr>rs_columns = [\<lparr>title = ''name'', column_type = UNKNOWN\<rparr>], rs_id = ''0_0'',
             rs_rowCount = 5, rs_completed = Some False,
             rs_fetch_resultIndex = 0, rs_fetch_batchIndex = 0\<rparr>"
  have none: "find (\<lambda>r. rs_id r = encodeId (resultIndex summary_10) (batchIndex summary_10))
      (resultSets (new_Query ''a.sql'')) = None"
    by (simp add: resultSets_def new_Query_def)
  have reg: "queries one_registration ''a.sql'' = Some 0"
    "query_heap one_registration 0 = new_Query ''a.sql''"
    "subscribed EvResultSetUpdated 0 one_registration \<noteq> []"
    by (simp_all add: scenario_defs operation_defs subscribed_def)
  have some: "find (\<lambda>r. rs_id r = encodeId (resultIndex summary_10) (batchIndex summary_10))
        (resultSets (handleResultSetAvailable summary_5 (new_Query ''a.sql''))) = Some ?x"
    by (simp add: resultSets_def new_Query_def handleResultSetAvailable_def summary_5_def
        summary_10_def encodeId_0_0 Let_def)
  have same: "resultIndex summary_10 = resultIndex summary_5"
    "batchIndex summary_10 = batchIndex summary_5"
    by (simp_all add: summary_5_def summary_10_def)
  have known: "\<exists>i<length (resultSets (handleResultSetAvailable summary_5 (new_Query ''a.sql''))).
      resultSets (handleResultSetAvailable summary_5 (new_Query ''a.sql'')) ! i = ?x"
    using some
      handleResultSetUpdated_unknown_or_in_place
        [where e = summary_10 and q = "handleResultSetAvailable summary_5 (new_Query ''a.sql'')"
           and x = ?x]
    by blast
  have fresh: "handleResultSetUpdated summary_10
        (handleResultSetAvailable summary_5 (new_Query ''a.sql''))
       = Inr ((new_Query ''a.sql'')
           \<lparr>q_resultSets :=
              [\<lparr>rs_columns = [\<lparr>title = ''name'', column_type = UNKNOWN\<rparr>], rs_id = ''0_0'',
                rs_rowCount = 10, rs_completed = Some True,
                rs_fetch_resultIndex = 0, rs_fetch_batchIndex = 0\<rparr>],
            fired :=
              [ResultSetAvailable ?x,
               ResultSetUpdated
                 \<lparr>rs_columns = [\<lparr>title = ''name'', column_type = UNKNOWN\<rparr>], rs_id = ''0_0'',
                  rs_rowCount = 10, rs_completed = Some True,
                  rs_fetch_resultIndex = 0, rs_fetch_batchIndex = 0\<rparr>]\<rparr>)"
    using none same
      handleResultSetUpdated_unknown_or_in_place
        [where e = summary_10 and q = "new_Query ''a.sql''" and a = summary_5]
    by (simp add: summary_5_def summary_10_def encodeId_0_0 resultSets_def new_Query_def)
  have unknown: "handleResultSetUpdated summary_10 (new_Query ''a.sql'') = Inl TypeError
      \<and> listener (OnResultSetUpdated ''a.sql'' summary_10) one_registration = Inl TypeError
      \<and> emit 0 (OnResultSetUpdated ''a.sql'' summary_10) one_registration
          = (Some TypeError, one_registration)"
    using none reg
      handleResultSetUpdated_unknown_or_in_place
        [where e = summary_10 and q = "new_Query ''a.sql''" and s = one_registration
           and c = "''a.sql''" and this = 0 and provider = 0]
    by blast
  from none reg some same known fresh unknown show ?thesis
    by blast
qed

text \<open>
  Claim C5 as stated fails: a second result-set-available event with the identity of the
  first appends a second entry with the same identity.
\<close>

theorem duplicate_available_counterexample:
  "map rs_id
     (resultSets (handleResultSetAvailable summary_5
        (handleResultSetAvailable summary_5 (new_Query ''a.sql''))))
   = [''0_0'', ''0_0'']
   \<and> \<not> distinct (map rs_id
     (resultSets (handleResultSetAvailable summary_5
        (handleResultSetAvailable summary_5 (new_Query ''a.sql'')))))"
  by (simp add: resultSets_def new_Query_def handleResultSetAvailable_def summary_5_def
      encodeId_0_0 Let_def)


lemma handleResultSetUpdated_ids:
  assumes "handleResultSetUpdated e q = Inr q'"
  shows "map rs_id (q_resultSets q') = map rs_id (q_resultSets q)"
proof -
  let ?i = "encodeId (resultIndex e) (batchIndex e)"
  from assms obtain x where x: "find (\<lambda>r. rs_id r = ?i) (q_resultSets q) = Some x"
    by (auto simp: handleResultSetUpdated_def Let_def split: option.splits)
  then have "rs_id x = ?i" by (rule find_Some_holds)
  then have "map rs_id
      (update_first (\<lambda>r. rs_id r = ?i)
         (\<lambda>_. x\<lparr>rs_rowCount := rowCount e, rs_completed := Some (completed e)\<rparr>)
         (q_resultSets q)) = map rs_id (q_resultSets q)"
    by (intro map_update_first) simp
  with assms x show ?thesis
    by (auto simp: handleResultSetUpdated_def Let_def)
qed

lemma listener_queries: "listener ev s = Inr s' \<Longrightarrow> queries s' = queries s"
  by (cases ev)
     (auto simp: onMessage_def onResultSetAvailable_def onResultSetUpdated_def onBatchStart_def
        onBatchComplete_def onQueryComplete_def modify_query_def split: sum.splits)

lemma listener_ids:
  assumes "listener ev s = Inr s'"
  shows "map rs_id (q_resultSets (query_heap s' r)) =
         map rs_id (q_resultSets (query_heap s r))
         @ map (\<lambda>(a, b). encodeId a b) (announced (queries s) r [ev])"
proof (cases ev)
  case (OnMessage c ms)
  with assms show ?thesis
    by (cases ms)
       (auto simp: onMessage_def modify_query_def handleMessage_def split: sum.splits)
next
  case (OnResultSetAvailable c e)
  with assms show ?thesis
    by (auto simp: onResultSetAvailable_def modify_query_def handleResultSetAvailable_def
          findQuery_def Let_def split: sum.splits option.splits)
next
  case (OnResultSetUpdated c e)
  with assms show ?thesis
    by (auto simp: onResultSetUpdated_def modify_query_def handleResultSetUpdated_ids
          split: sum.splits)
next
  case (OnBatchStart c t i)
  with assms show ?thesis
    by (auto simp: onBatchStart_def modify_query_def handleBatchStart_def split: sum.splits)
next
  case (OnBatchComplete c t)
  with assms show ?thesis
    by (auto simp: onBatchComplete_def modify_query_def handleBatchEnd_def split: sum.splits)
next
  case (OnQueryComplete c)
  with assms show ?thesis
    by (auto simp: onQueryComplete_def modify_query_def handleQueryComplete_def setState_def
          Let_def split: sum.splits)
qed

lemma listener_fails_announced:
  "listener ev s = Inl err \<Longrightarrow> announced (queries s) r [ev] = []"
  by (cases ev)
     (auto simp: onResultSetAvailable_def findQuery_def split: sum.splits option.splits)

lemma announced_Cons: "announced qs r (ev # evs) = announced qs r [ev] @ announced qs r evs"
  by (cases ev) simp_all

lemma dispatch_all_queries: "queries (dispatch_all evs s) = queries s"
proof (induction evs arbitrary: s)
  case Nil
  show ?case by simp
next
  case (Cons ev evs)
  show ?case
    by (cases "listener ev s") (simp_all add: Cons.IH listener_queries)
qed

lemma dispatch_all_ids:
  "map rs_id (q_resultSets (query_heap (dispatch_all evs s) r)) =
   map rs_id (q_resultSets (query_heap s r))
   @ map (\<lambda>(a, b). encodeId a b) (announced (queries s) r evs)"
proof (induction evs arbitrary: s)
  case Nil
  show ?case by simp
next
  case (Cons ev evs)
  show ?case
  proof (cases "listener ev s")
    case (Inl err)
    then show ?thesis
      using Cons.IH [of s] listener_fails_announced [OF Inl, of r]
      by (simp add: announced_Cons [of _ _ ev evs])
  next
    case (Inr s')
    then show ?thesis
      using Cons.IH [of s'] listener_ids [OF Inr, of r] listener_queries [OF Inr]
      by (simp add: announced_Cons [of _ _ ev evs])
  qed
qed

lemma distinct_encoded: "distinct (map (\<lambda>(a, b). encodeId a b) ps) = distinct ps"
  by (auto simp: distinct_map inj_on_def encodeId_inj)

lemma updated_example:
  "handleResultSetUpdated summary_10 (handleResultSetAvailable summary_5 (new_Query ''a.sql''))
   = Inr ((new_Query ''a.sql'')
       \<lparr>q_resultSets :=
          [\<lparr>rs_columns = [\<lparr>title = ''name'', column_type = UNKNOWN\<rparr>], rs_id = ''0_0'',
            rs_rowCount = 10, rs_completed = Some True,
            rs_fetch_resultIndex = 0, rs_fetch_batchIndex = 0\<rparr>],
        fired :=
          [ResultSetAvailable
             \<lparr>rs_columns = [\<lparr>title = ''name'', column_type = UNKNOWN\<rparr>], rs_id = ''0_0'',
              rs_rowCount = 5, rs_completed = Some False,
              rs_fetch_resultIndex = 0, rs_fetch_batchIndex = 0\<rparr>,
           ResultSetUpdated
             \<lparr>rs_columns = [\<lparr>title = ''name'', column_type = UNKNOWN\<rparr>], rs_id = ''0_0'',
              rs_rowCount = 10, rs_completed = Some True,
              rs_fetch_resultIndex = 0, rs_fetch_batchIndex = 0\<rparr>]\<rparr>)"
  by (simp add: handleResultSetUpdated_def handleResultSetAvailable_def new_Query_def
      summary_5_def summary_10_def encodeId_0_0 Let_def)

text \<open>
  Claim C5, amended. A result-set-updated event never adds an entry and changes no
  identity; a result-set-available event always appends one entry, whether its identity
  is present or not. So after any sequence of dispatched provider events the identities
  of a query's result sets are those it had, followed by the identities announced to it
  by the result-set-available events of the sequence, in order; starting from no result
  sets, as an execution does, they are unique exactly when no identity was announced
  twice.
\<close>

theorem resultSets_identities:
  "map rs_id (resultSets (query_heap (dispatch_all evs s) r)) =
     map rs_id (resultSets (query_heap s r))
     @ map (\<lambda>(a, b). encodeId a b) (announced (queries s) r evs)
   \<and> (resultSets (query_heap s r) = [] \<longrightarrow>
        distinct (map rs_id (resultSets (query_heap (dispatch_all evs s) r)))
        = distinct (announced (queries s) r evs))
   \<and> (handleResultSetUpdated e q = Inr q' \<longrightarrow>
        map rs_id (resultSets q') = map rs_id (resultSets q))
   \<and> map rs_id (resultSets (handleResultSetAvailable e q)) =
        map rs_id (resultSets q) @ [encodeId (resultIndex e) (batchIndex e)]"
proof -
  have "resultSets (query_heap s r) = [] \<longrightarrow>
        distinct (map rs_id (resultSets (query_heap (dispatch_all evs s) r)))
        = distinct (announced (queries s) r evs)"
    by (simp add: resultSets_def dispatch_all_ids distinct_encoded)
  then show ?thesis
    using handleResultSetUpdated_ids [of e q q']
    by (simp add: resultSets_def dispatch_all_ids handleResultSetAvailable_def Let_def)
qed


theorem resultSets_identities_witness:
  "resultSets (query_heap with_query 0) = []
   \<and> announced (queries with_query) 0
        [OnResultSetAvailable ''a.sql'' summary_5, OnResultSetUpdated ''a.sql'' summary_10]
       = [(0, 0)]
   \<and> map rs_id (resultSets (query_heap (dispatch_all
        [OnResultSetAvailable ''a.sql'' summary_5, OnResultSetUpdated ''a.sql'' summary_10]
        with_query) 0)) = [''0_0'']
   \<and> distinct (map rs_id (resultSets (query_heap (dispatch_all
        [OnResultSetAvailable ''a.sql'' summary_5, OnResultSetUpdated ''a.sql'' summary_10]
        with_query) 0)))
   \<and> map rs_id (resultSets (handleResultSetAvailable summary_5 (new_Query ''a.sql'')))
       = [''0_0'']
   \<and> map rs_id (resultSets ((new_Query ''a.sql'')
       \<lparr>q_resultSets :=
          [\<lparr>rs_columns = [\<lparr>title = ''name'', column_type = UNKNOWN\<rparr>], rs_id = ''0_0'',
            rs_rowCount = 10, rs_completed = Some True,
            rs_fetch_resultIndex = 0, rs_fetch_batchIndex = 0\<rparr>],
        fired :=
          [ResultSetAvailable
             \<lparr>rs_columns = [\<lparr>title = ''name'', column_type = UNKNOWN\<rparr>], rs_id = ''0_0'',
              rs_rowCount = 5, rs_completed = Some False,
              rs_fetch_resultIndex = 0, rs_fetch_batchIndex = 0\<rparr>,
           ResultSetUpdated
             \<lparr>rs_columns = [\<lparr>title = ''name'', column_type = UNKNOWN\<rparr>], rs_id = ''0_0'',
              rs_rowCount = 10, rs_completed = Some True,
              rs_fetch_resultIndex = 0, rs_fetch_batchIndex = 0\<rparr>]\<rparr>))
       = map rs_id (resultSets (handleResultSetAvailable summary_5 (new_Query ''a.sql'')))"
proof -
  have empty: "resultSets (query_heap with_query 0) = []"
    by (simp add: scenario_defs operation_defs)
  have ann: "announced (queries with_query) 0
        [OnResultSetAvailable ''a.sql'' summary_5, OnResultSetUpdated ''a.sql'' summary_10]
       = [(0, 0)]"
    by (simp add: scenario_defs operation_defs summary_5_def)
  show ?thesis
    using empty ann updated_example
      resultSets_identities
        [where evs = "[OnResultSetAvailable ''a.sql'' summary_5,
                       OnResultSetUpdated ''a.sql'' summary_10]"
           and s = with_query and r = 0 and e = summary_10
           and q = "handleResultSetAvailable summary_5 (new_Query ''a.sql'')"]
      resultSets_identities
        [where evs = "[]" and s = with_query and r = 0 and e = summary_5
           and q = "new_Query ''a.sql''"]
    by (simp add: encodeId_0_0 summary_5_def new_Query_def resultSets_def)
qed


section \<open>Provider registration\<close>

lemma registerProvider_disposable:
  "fst (registerProvider p s) =
     map (\<lambda>(k, t). Unsubscribe p k t) (subscriptions (next_listener s))
     @ [DeleteProvider (provider_id (provider_heap s p))]"
  by (simp add: registerProvider_def Let_def)

lemma registerProvider_heap:
  "provider_heap (snd (registerProvider p s)) =
     (provider_heap s)
       (p := (provider_heap s p)
          \<lparr>listeners := listeners (provider_heap s p) @ subscriptions (next_listener s)\<rparr>)"
  by (simp add: registerProvider_def Let_def)

lemma registerProvider_registry:
  "queryProviders (snd (registerProvider p s)) =
     (queryProviders s)
       (provider_id (provider_heap s p) \<mapsto>
          \<lparr>stub_disposable = fst (registerProvider p s), stub_provider = p\<rparr>)"
  by (simp add: registerProvider_def Let_def)

lemma registerProvider_next: "next_listener (snd (registerProvider p s)) = next_listener s + 6"
  by (simp add: registerProvider_def Let_def)

lemma unsubscribe_all_registry:
  "queryProviders (fold dispose_part (map (\<lambda>(k, t). Unsubscribe p k t) subs) t)
   = queryProviders t"
  by (induction subs arbitrary: t) (simp_all split: prod.splits)

lemma unsubscribe_all_heap:
  "provider_heap (fold dispose_part (map (\<lambda>(k, t). Unsubscribe p k t) subs) t) =
     (provider_heap t)
       (p := (provider_heap t p)\<lparr>listeners := fold remove1 subs (listeners (provider_heap t p))\<rparr>)"
proof (induction subs arbitrary: t)
  case Nil
  show ?case by simp
next
  case (Cons l subs)
  show ?case
    by (cases l) (simp add: Cons.IH fun_eq_iff)
qed

lemma dispose_registry:
  "queryProviders (dispose (map (\<lambda>(k, t). Unsubscribe p k t) subs @ [DeleteProvider i]) t)
   = (queryProviders t)(i := None)"
  by (simp add: dispose_def unsubscribe_all_registry)

lemma dispose_heap:
  "provider_heap (dispose (map (\<lambda>(k, t). Unsubscribe p k t) subs @ [DeleteProvider i]) t) =
     (provider_heap t)
       (p := (provider_heap t p)\<lparr>listeners := fold remove1 subs (listeners (provider_heap t p))\<rparr>)"
  by (simp add: dispose_def unsubscribe_all_heap)

lemma fold_remove1_append: "set xs \<inter> set ls = {} \<Longrightarrow> fold remove1 xs (ls @ xs) = ls"
proof (induction xs)
  case Nil
  show ?case by simp
next
  case (Cons x xs)
  then have "x \<notin> set ls" "set xs \<inter> set ls = {}" by auto
  then show ?case
    using Cons.IH by (simp add: remove1_append)
qed

lemma fold_remove1_absent: "set xs \<inter> set ls = {} \<Longrightarrow> fold remove1 xs ls = ls"
proof (induction xs)
  case Nil
  show ?case by simp
next
  case (Cons x xs)
  then have "x \<notin> set ls" "set xs \<inter> set ls = {}" by auto
  then show ?case
    using Cons.IH by (simp add: remove1_idem)
qed

lemma subscriptions_fresh:
  "\<forall>l\<in>set ls. snd l < n \<Longrightarrow> set (subscriptions n) \<inter> set ls = {}"
  by (fastforce simp: subscriptions_def)

lemma emit_one_listener:
  "subscribed (kind_of ev) p s = [l] \<Longrightarrow>
   emit p ev s = (case listener ev s of Inl err \<Rightarrow> (Some err, s) | Inr s' \<Rightarrow> (None, s'))"
  by (simp add: emit_def split: sum.splits)

lemma one_subscription_per_stream:
  "\<exists>l. filter (\<lambda>l. fst l = k) (subscriptions n) = [l]"
  by (cases k) (simp_all add: subscriptions_def)

lemma with_query_facts:
  "provider_heap with_query p = \<lparr>provider_id = ''MSSQL'', listeners = []\<rparr>"
  "next_listener with_query = 0"
  "queries with_query ''a.sql'' = Some 0"
  "query_heap with_query 0 = new_Query ''a.sql''"
  by (simp_all add: with_query_def createOrGetQuery_def new_QueryService_def
      mssql_providers_def Let_def)

lemma two_registrations_facts:
  "queries two_registrations ''a.sql'' = Some 0"
  "query_heap two_registrations 0 = new_Query ''a.sql''"
  "listeners (provider_heap two_registrations 0) = subscriptions 0"
  "listeners (provider_heap two_registrations 1) = subscriptions 6"
  by (simp_all add: two_registrations_def one_registration_def registerProvider_def
      with_query_facts Let_def)

lemma message_dispatch_example:
  "onMessage ''a.sql'' (One hello) two_registrations
   = Inr (modify_query 0 (handleMessage (One hello)) two_registrations)"
  by (simp add: onMessage_def findQuery_def two_registrations_facts)

lemma message_handled_example:
  "messages (query_heap (modify_query 0 (handleMessage (One hello)) two_registrations) 0)
   = [hello]"
  by (simp add: modify_query_def two_registrations_facts handleMessage_def messages_def
      new_Query_def)

text \<open>
  Claim C10. The revocation handle returned by \<^verbatim>\<open>registerProvider(p)\<close>, invoked in any
  later state \<open>t\<close>, removes whatever the registry holds under the identity of \<open>p\<close>.
  When a second provider object \<open>p1\<close> of the same identity was registered after \<open>p0\<close>,
  the registry holds \<open>p1\<close>, and invoking the handle of \<open>p0\<close> deletes that entry, takes
  the six listeners of that registration off \<open>p0\<close> and leaves the six listeners of
  \<open>p1\<close> subscribed.
\<close>

theorem dispose_deletes_by_identity:
  "queryProviders (dispose (fst (registerProvider p s)) t) (provider_id (provider_heap s p)) = None
   \<and> (p0 \<noteq> p1 \<and> provider_id (provider_heap s p0) = provider_id (provider_heap s p1)
       \<and> (\<forall>l\<in>set (listeners (provider_heap s p0)). snd l < next_listener s) \<longrightarrow>
       map_option stub_provider
         (queryProviders (snd (registerProvider p1 (snd (registerProvider p0 s))))
            (provider_id (provider_heap s p1))) = Some p1
       \<and> queryProviders
           (dispose (fst (registerProvider p0 s))
              (snd (registerProvider p1 (snd (registerProvider p0 s)))))
           (provider_id (provider_heap s p1)) = None
       \<and> listeners (provider_heap
           (dispose (fst (registerProvider p0 s))
              (snd (registerProvider p1 (snd (registerProvider p0 s))))) p0)
          = listeners (provider_heap s p0)
       \<and> listeners (provider_heap
           (dispose (fst (registerProvider p0 s))
              (snd (registerProvider p1 (snd (registerProvider p0 s))))) p1)
          = listeners (provider_heap s p1) @ subscriptions (next_listener s + 6))"
  (is "?any \<and> (?two \<longrightarrow> ?after)")
proof (rule conjI)
  show ?any
    by (simp add: registerProvider_disposable dispose_registry)
  show "?two \<longrightarrow> ?after"
  proof (rule impI)
  assume two: ?two
  then have ne: "p0 \<noteq> p1"
    and same: "provider_id (provider_heap s p0) = provider_id (provider_heap s p1)"
    and fresh: "set (subscriptions (next_listener s)) \<inter> set (listeners (provider_heap s p0)) = {}"
    by (simp_all add: subscriptions_fresh)
  let ?s0 = "snd (registerProvider p0 s)"
  let ?s1 = "snd (registerProvider p1 ?s0)"
  have id1: "provider_id (provider_heap ?s0 p1) = provider_id (provider_heap s p1)"
    using ne by (simp add: registerProvider_heap)
  have l0: "listeners (provider_heap ?s1 p0)
            = listeners (provider_heap s p0) @ subscriptions (next_listener s)"
    using ne by (simp add: registerProvider_heap)
  have l1: "listeners (provider_heap ?s1 p1)
            = listeners (provider_heap s p1) @ subscriptions (next_listener s + 6)"
    using ne by (simp add: registerProvider_heap registerProvider_next)
  show ?after
    using ne same
    by (simp add: registerProvider_registry id1 registerProvider_disposable [of p0 s]
        dispose_registry dispose_heap l0 l1 fold_remove1_append [OF fresh])
  qed
qed


theorem dispose_deletes_by_identity_witness:
  "(0::nat) \<noteq> 1
   \<and> provider_id (provider_heap with_query 0) = provider_id (provider_heap with_query 1)
   \<and> listeners (provider_heap with_query 0) = []
   \<and> map_option stub_provider (queryProviders two_registrations ''MSSQL'') = Some 1
   \<and> queryProviders (dispose (fst (registerProvider 0 with_query)) two_registrations) ''MSSQL''
       = None
   \<and> listeners (provider_heap
         (dispose (fst (registerProvider 0 with_query)) two_registrations) 0) = []
   \<and> listeners (provider_heap
         (dispose (fst (registerProvider 0 with_query)) two_registrations) 1)
       = subscriptions 6"
proof -
  have hyp: "(0::nat) \<noteq> 1
      \<and> provider_id (provider_heap with_query 0) = provider_id (provider_heap with_query 1)
      \<and> (\<forall>l\<in>set (listeners (provider_heap with_query 0)). snd l < next_listener with_query)"
    by (simp add: with_query_facts)
  show ?thesis
    using hyp
      dispose_deletes_by_identity
        [where s = with_query and ?p0.0 = 0 and ?p1.0 = 1 and p = 0 and t = two_registrations]
    by (simp add: two_registrations_def one_registration_def with_query_facts)
qed

text \<open>
  Claim C1 as stated fails: after a second registration under the same identity the
  registry holds the second provider, but the first provider still has its six
  listeners, and a message it emits is appended to the query.
\<close>

theorem old_provider_still_heard_counterexample:
  "queryProviders two_registrations ''MSSQL''
     = Some \<lparr>stub_disposable = fst (registerProvider 1 one_registration), stub_provider = 1\<rparr>
   \<and> listeners (provider_heap two_registrations 0) = subscriptions 0
   \<and> messages (query_heap two_registrations 0) = []
   \<and> emit 0 (OnMessage ''a.sql'' (One hello)) two_registrations
       = (None, modify_query 0 (handleMessage (One hello)) two_registrations)
   \<and> messages (query_heap (modify_query 0 (handleMessage (One hello)) two_registrations) 0)
       = [hello]"
proof -
  have "subscribed (kind_of (OnMessage ''a.sql'' (One hello))) 0 two_registrations
        = [(EvMessage, 0)]"
    by (simp add: subscribed_def two_registrations_facts subscriptions_def)
  then have "emit 0 (OnMessage ''a.sql'' (One hello)) two_registrations
       = (None, modify_query 0 (handleMessage (One hello)) two_registrations)"
    by (simp add: emit_one_listener message_dispatch_example)
  moreover have "queryProviders two_registrations ''MSSQL''
     = Some \<lparr>stub_disposable = fst (registerProvider 1 one_registration), stub_provider = 1\<rparr>"
    by (simp add: two_registrations_def registerProvider_registry one_registration_def
        registerProvider_heap with_query_facts)
  moreover have "messages (query_heap two_registrations 0) = []"
    by (simp add: two_registrations_facts messages_def new_Query_def)
  ultimately show ?thesis
    by (simp add: two_registrations_facts(3) message_handled_example)
qed

text \<open>
  Claim C1, amended. Registering a second provider object under the identity of a first
  replaces the entry of the registry by the second and revokes nothing: the six
  listeners of the first registration stay subscribed next to the six of the second, so
  an event emitted by either provider is handed to the service and dispatched to its
  query.
\<close>

theorem reregistration_keeps_old_subscriptions:
  "p0 \<noteq> p1 \<and> provider_id (provider_heap s p0) = provider_id (provider_heap s p1) \<longrightarrow>
     queryProviders (snd (registerProvider p1 (snd (registerProvider p0 s))))
        (provider_id (provider_heap s p1))
       = Some \<lparr>stub_disposable = fst (registerProvider p1 (snd (registerProvider p0 s))),
               stub_provider = p1\<rparr>
     \<and> listeners (provider_heap (snd (registerProvider p1 (snd (registerProvider p0 s)))) p0)
        = listeners (provider_heap s p0) @ subscriptions (next_listener s)
     \<and> listeners (provider_heap (snd (registerProvider p1 (snd (registerProvider p0 s)))) p1)
        = listeners (provider_heap s p1) @ subscriptions (next_listener s + 6)
     \<and> (listeners (provider_heap s p0) = [] \<longrightarrow>
          emit p0 ev (snd (registerProvider p1 (snd (registerProvider p0 s))))
          = (case listener ev (snd (registerProvider p1 (snd (registerProvider p0 s)))) of
               Inl err \<Rightarrow> (Some err, snd (registerProvider p1 (snd (registerProvider p0 s))))
             | Inr s' \<Rightarrow> (None, s')))
     \<and> (listeners (provider_heap s p1) = [] \<longrightarrow>
          emit p1 ev (snd (registerProvider p1 (snd (registerProvider p0 s))))
          = (case listener ev (snd (registerProvider p1 (snd (registerProvider p0 s)))) of
               Inl err \<Rightarrow> (Some err, snd (registerProvider p1 (snd (registerProvider p0 s))))
             | Inr s' \<Rightarrow> (None, s')))"
proof (rule impI)
  let ?s0 = "snd (registerProvider p0 s)"
  let ?s1 = "snd (registerProvider p1 ?s0)"
  assume two: "p0 \<noteq> p1 \<and> provider_id (provider_heap s p0) = provider_id (provider_heap s p1)"
  then have ne: "p0 \<noteq> p1" by simp
  have id1: "provider_id (provider_heap ?s0 p1) = provider_id (provider_heap s p1)"
    using ne by (simp add: registerProvider_heap)
  have reg: "queryProviders ?s1 (provider_id (provider_heap s p1))
       = Some \<lparr>stub_disposable = fst (registerProvider p1 ?s0), stub_provider = p1\<rparr>"
    by (simp add: registerProvider_registry [of p1 ?s0] id1)
  have l0: "listeners (provider_heap ?s1 p0)
            = listeners (provider_heap s p0) @ subscriptions (next_listener s)"
    using ne by (simp add: registerProvider_heap)
  have l1: "listeners (provider_heap ?s1 p1)
            = listeners (provider_heap s p1) @ subscriptions (next_listener s + 6)"
    using ne by (simp add: registerProvider_heap registerProvider_next)
  have e0: "listeners (provider_heap s p0) = [] \<longrightarrow>
          emit p0 ev ?s1
          = (case listener ev ?s1 of Inl err \<Rightarrow> (Some err, ?s1) | Inr s' \<Rightarrow> (None, s'))"
  proof
    assume "listeners (provider_heap s p0) = []"
    with l0 have "subscribed (kind_of ev) p0 ?s1
        = filter (\<lambda>l. fst l = kind_of ev) (subscriptions (next_listener s))"
      by (simp add: subscribed_def)
    then obtain l where "subscribed (kind_of ev) p0 ?s1 = [l]"
      using one_subscription_per_stream [of "kind_of ev" "next_listener s"] by auto
    then show "emit p0 ev ?s1
          = (case listener ev ?s1 of Inl err \<Rightarrow> (Some err, ?s1) | Inr s' \<Rightarrow> (None, s'))"
      by (rule emit_one_listener)
  qed
  have e1: "listeners (provider_heap s p1) = [] \<longrightarrow>
          emit p1 ev ?s1
          = (case listener ev ?s1 of Inl err \<Rightarrow> (Some err, ?s1) | Inr s' \<Rightarrow> (None, s'))"
  proof
    assume "listeners (provider_heap s p1) = []"
    with l1 have "subscribed (kind_of ev) p1 ?s1
        = filter (\<lambda>l. fst l = kind_of ev) (subscriptions (next_listener s + 6))"
      by (simp add: subscribed_def)
    then obtain l where "subscribed (kind_of ev) p1 ?s1 = [l]"
      using one_subscription_per_stream [of "kind_of ev" "next_listener s + 6"] by auto
    then show "emit p1 ev ?s1
          = (case listener ev ?s1 of Inl err \<Rightarrow> (Some err, ?s1) | Inr s' \<Rightarrow> (None, s'))"
      by (rule emit_one_listener)
  qed
  from reg l0 l1 e0 e1
  show "queryProviders ?s1 (provider_id (provider_heap s p1))
       = Some \<lparr>stub_disposable = fst (registerProvider p1 ?s0), stub_provider = p1\<rparr>
     \<and> listeners (provider_heap ?s1 p0)
        = listeners (provider_heap s p0) @ subscriptions (next_listener s)
     \<and> listeners (provider_heap ?s1 p1)
        = listeners (provider_heap s p1) @ subscriptions (next_listener s + 6)
     \<and> (listeners (provider_heap s p0) = [] \<longrightarrow>
          emit p0 ev ?s1
          = (case listener ev ?s1 of Inl err \<Rightarrow> (Some err, ?s1) | Inr s' \<Rightarrow> (None, s')))
     \<and> (listeners (provider_heap s p1) = [] \<longrightarrow>
          emit p1 ev ?s1
          = (case listener ev ?s1 of Inl err \<Rightarrow> (Some err, ?s1) | Inr s' \<Rightarrow> (None, s')))"
    by blast
qed

theorem reregistration_keeps_old_subscriptions_witness:
  "(0::nat) \<noteq> 1
   \<and> provider_id (provider_heap with_query 0) = provider_id (provider_heap with_query 1)
   \<and> listeners (provider_heap with_query 0) = []
   \<and> listeners (provider_heap with_query 1) = []
   \<and> map_option stub_provider (queryProviders two_registrations ''MSSQL'') = Some 1
   \<and> listeners (provider_heap two_registrations 0) = subscriptions 0
   \<and> listeners (provider_heap two_registrations 1) = subscriptions 6
   \<and> emit 0 (OnMessage ''a.sql'' (One hello)) two_registrations
       = (None, modify_query 0 (handleMessage (One hello)) two_registrations)
   \<and> emit 1 (OnMessage ''a.sql'' (One hello)) two_registrations
       = (None, modify_query 0 (handleMessage (One hello)) two_registrations)"
proof -
  have hyp: "(0::nat) \<noteq> 1
      \<and> provider_id (provider_heap with_query 0) = provider_id (provider_heap with_query 1)"
    and l0: "listeners (provider_heap with_query 0) = []"
    and l1: "listeners (provider_heap with_query 1) = []"
    by (simp_all add: with_query_facts)
  have tr: "snd (registerProvider 1 (snd (registerProvider 0 with_query))) = two_registrations"
    by (simp add: two_registrations_def one_registration_def)
  have nxt: "next_listener with_query = 0"
    by (simp add: with_query_facts)
  show ?thesis
    using hyp l0 l1
      reregistration_keeps_old_subscriptions
        [where s = with_query and ?p0.0 = 0 and ?p1.0 = 1
           and ev = "OnMessage ''a.sql'' (One hello)", unfolded tr nxt]
    by (simp add: message_dispatch_example with_query_facts)
qed

section \<open>createOrGetQuery and setExecutionOptions\<close>

lemma createOrGetQuery_existing:
  "queries s associatedURI = Some existing \<Longrightarrow>
   createOrGetQuery associatedURI forceNew s = (existing, s)"
  by (simp add: createOrGetQuery_def)

lemma createOrGetQuery_new:
  "queries s associatedURI = None \<Longrightarrow>
   fst (createOrGetQuery associatedURI forceNew s) = next_query s
   \<and> queries (snd (createOrGetQuery associatedURI forceNew s)) associatedURI
       = Some (next_query s)
   \<and> query_heap (snd (createOrGetQuery associatedURI forceNew s)) (next_query s)
       = new_Query associatedURI"
  by (simp add: createOrGetQuery_def Let_def)

text \<open>
  Claim C9, at the input where the code departs from it. The first call for
  \<^verbatim>\<open>a.sql\<close> creates the query object \<open>0\<close>; after a message has been appended to it, a
  call with \<^verbatim>\<open>forceNew\<close> set returns the same object \<open>0\<close> with its message and
  creates nothing.
\<close>

theorem forceNew_returns_existing:
  "fst (createOrGetQuery ''a.sql'' None (new_QueryService mssql_directory mssql_providers)) = 0
   \<and> messages (query_heap with_message 0) = [hello]
   \<and> createOrGetQuery ''a.sql'' (Some True) with_message = (0, with_message)
   \<and> next_query with_message = 1"
  by (simp add: with_message_def with_query_def createOrGetQuery_def new_QueryService_def
      modify_query_def handleMessage_def messages_def new_Query_def Let_def)

text \<open>
  Claim C6, at the input where the code departs from it. With a provider registered for
  the document of query \<open>0\<close>, \<^verbatim>\<open>Query.setExecutionOptions\<close> resolves without any call
  to the provider, where the helper \<^verbatim>\<open>QueryService.setExecutionOptions\<close> for the same
  document and options would have called it.
\<close>

theorem setExecutionOptions_not_forwarded:
  "withProvider ''a.sql'' one_registration = Inr 0
   \<and> associatedFile (query_heap one_registration 0) = ''a.sql''
   \<and> provider_calls one_registration = []
   \<and> Query_setExecutionOptions 0 [(''ROWCOUNT'', Num 10)] one_registration
       = (Inr (), one_registration)
   \<and> setExecutionOptions ''a.sql'' [(''ROWCOUNT'', Num 10)] one_registration
       = Inr (0, one_registration
                 \<lparr>provider_calls := [(0, SetExecutionOptions ''a.sql'' [(''ROWCOUNT'', Num 10)])]\<rparr>)"
proof -
  have wp: "withProvider ''a.sql'' one_registration = Inr 0"
    by (simp add: scenario_defs operation_defs)
  have calls: "provider_calls one_registration = []"
    and doc: "associatedFile (query_heap one_registration 0) = ''a.sql''"
    by (simp_all add: scenario_defs operation_defs)
  show ?thesis
    by (simp add: wp calls doc Query_setExecutionOptions_def setExecutionOptions_def)
qed


end
